theory Spec2Isabelle
  imports Main "HOL-Library.Sublist"
begin

section \<open>JavaScript values\<close>

text \<open>
  The services take arguments typed \<open>any\<close>, so the model carries the values a request can
  deliver. An object is an association list in insertion order; its keys are distinct in
  JavaScript, and every lookup below reads the first binding of a key. A key bound to
  \<open>JUndefined\<close> is an own property of the object whose value is \<open>undefined\<close>, which is not
  the same as a key that is absent.
\<close>

datatype jsval =
    JUndefined
  | JNull
  | JBool bool
  | JNum int
  | JStr string
  | JArr "jsval list"
  | JObj "(string \<times> jsval) list"

type_synonym obj = "(string \<times> jsval) list"

text \<open>
  What a rejected promise carries: an instance of \<open>Error\<close> with its \<open>name\<close> and
  \<open>message\<close>, or any other thrown value. The handlers tell the two apart with
  \<open>err instanceof Error\<close>. The message texts belong to the engine and to the data-access
  client; no property below depends on them.
\<close>

datatype thrown =
    ErrorInstance (err_name: string) (err_message: string)
  | NonError jsval

text \<open>The condition of an \<open>if\<close>, and the left operand of \<open>||\<close>.\<close>

fun truthy :: "jsval \<Rightarrow> bool" where
  "truthy JUndefined = False"
| "truthy JNull = False"
| "truthy (JBool b) = b"
| "truthy (JNum n) = (n \<noteq> 0)"
| "truthy (JStr s) = (s \<noteq> [])"
| "truthy (JArr xs) = True"
| "truthy (JObj ps) = True"

text \<open>\<open>o[k]\<close> on an object: the value bound to the key, \<open>undefined\<close> when it has none.\<close>

definition get :: "obj \<Rightarrow> string \<Rightarrow> jsval" where
  "get ps k = (case map_of ps k of None \<Rightarrow> JUndefined | Some v \<Rightarrow> v)"

text \<open>
  \<open>Object.keys\<close>: the own keys in insertion order (integer-like keys, which JavaScript
  lists first, are not field names).
\<close>

definition keys :: "obj \<Rightarrow> string list" where
  "keys ps = map fst ps"

section \<open>The data-access client\<close>

text \<open>
  The structured filter the service hands to \<open>prisma.admin.findMany\<close>:
  \<open>{AND: [...]}\<close>, \<open>{OR: [...]}\<close> and \<open>{[field]: {contains, mode}}\<close> or
  \<open>{[field]: {equals}}\<close>.
\<close>

datatype query_mode = Default | Insensitive

datatype field_filter =
    Contains jsval query_mode
  | Equals jsval

datatype where_input =
    AND "where_input list"
  | OR "where_input list"
  | Field string field_filter

text \<open>
  Modelled from the spec: the data-access client (\<open>@prisma/client\<close>) is an external
  collaborator and the admin schema (\<open>prisma/schema.prisma\<close>) is not under src/. The spec
  gives the client "a structured filter predicate (AND/OR of equality and
  case-insensitive-contains conditions)", says that "a malformed filter value is passed
  through as-is to the equality comparison (no type coercion)" and that "a non-existent
  field key produces a data-access layer error (unknown field)". A row is an object; the
  field names of the admin schema are a parameter. Containment holds between strings
  only, insensitive to the case of the ASCII letters, and an equality condition holds of
  a row whose field is bound to exactly the value given.
\<close>

definition lower_char :: "char \<Rightarrow> char" where
  "lower_char c =
     (let n = (of_char c :: nat) in if 65 \<le> n \<and> n \<le> 90 then char_of (n + 32) else c)"

definition lower :: "string \<Rightarrow> string" where
  "lower s = map lower_char s"

fun contains_str :: "query_mode \<Rightarrow> jsval \<Rightarrow> jsval \<Rightarrow> bool" where
  "contains_str Insensitive (JStr s) (JStr t) = sublist (lower t) (lower s)"
| "contains_str Default (JStr s) (JStr t) = sublist t s"
| "contains_str m v w = False"

fun satisfies :: "obj \<Rightarrow> where_input \<Rightarrow> bool" where
  "satisfies r (AND ws) = (\<forall>w \<in> set ws. satisfies r w)"
| "satisfies r (OR ws) = (\<exists>w \<in> set ws. satisfies r w)"
| "satisfies r (Field k (Contains t m)) = contains_str m (get r k) t"
| "satisfies r (Field k (Equals v)) = (map_of r k = Some v)"

fun fields_of :: "where_input \<Rightarrow> string list" where
  "fields_of (AND ws) = concat (map fields_of ws)"
| "fields_of (OR ws) = concat (map fields_of ws)"
| "fields_of (Field k f) = [k]"

definition unknown_field :: "string \<Rightarrow> thrown" where
  "unknown_field k =
     ErrorInstance ''PrismaClientValidationError'' (''Unknown argument `'' @ k @ ''`.'')"

definition findMany :: "string list \<Rightarrow> obj list \<Rightarrow> where_input \<Rightarrow> thrown + obj list" where
  "findMany schema rows w =
     (case filter (\<lambda>k. k \<notin> set schema) (fields_of w) of
        [] \<Rightarrow> Inr (filter (\<lambda>r. satisfies r w) rows)
      | k # ks \<Rightarrow> Inl (unknown_field k))"

section \<open>Admin service\<close>

text \<open>
  \<open>app/modules/Admin/admin.service.ts\<close>. The argument is what the two versions of the
  handler pass: nothing at all (\<open>undefined\<close>), or the object picked from the query; \<open>null\<close>
  stands with \<open>undefined\<close> because destructuring rejects both.
\<close>

datatype params = PUndefined | PNull | PObject obj

definition adminSearchableFields :: "string list" where
  "adminSearchableFields = [''name'', ''email'']"

text \<open>\<open>const { searchTerm, ...rest } = params\<close>: the own properties other than \<open>searchTerm\<close>.\<close>

definition rest_of :: "obj \<Rightarrow> obj" where
  "rest_of ps = filter (\<lambda>(k, v). k \<noteq> ''searchTerm'') ps"

definition search_clause :: "obj \<Rightarrow> where_input" where
  "search_clause ps =
     OR (map (\<lambda>field. Field field (Contains (get ps ''searchTerm'') Insensitive))
          adminSearchableFields)"

definition rest_clause :: "obj \<Rightarrow> where_input" where
  "rest_clause rest = AND (map (\<lambda>key. Field key (Equals (get rest key))) (keys rest))"

definition addCondition :: "obj \<Rightarrow> where_input list" where
  "addCondition ps =
     (let rest = rest_of ps;
          c1 = (if truthy (get ps ''searchTerm'') then [search_clause ps] else []);
          c2 = (if length (keys rest) > 0 then c1 @ [rest_clause rest] else c1)
      in c2)"

definition whereConditions :: "obj \<Rightarrow> where_input" where
  "whereConditions ps = AND (addCondition ps)"

definition destructure_error :: thrown where
  "destructure_error =
     ErrorInstance ''TypeError'' ''Cannot destructure property 'searchTerm' of 'params'.''"

fun getAllFromDB :: "string list \<Rightarrow> obj list \<Rightarrow> params \<Rightarrow> thrown + obj list" where
  "getAllFromDB schema rows PUndefined = Inl destructure_error"
| "getAllFromDB schema rows PNull = Inl destructure_error"
| "getAllFromDB schema rows (PObject ps) = findMany schema rows (whereConditions ps)"

section \<open>User service\<close>

text \<open>
  \<open>v.k\<close> on any value: reading a property of \<open>undefined\<close> or \<open>null\<close> throws a
  \<open>TypeError\<close>; an object gives the value bound to the key; a primitive or an array has
  none of the properties the services read (\<open>password\<close>, \<open>admin\<close>, \<open>email\<close>).
\<close>

definition property_error :: "string \<Rightarrow> thrown" where
  "property_error k =
     ErrorInstance ''TypeError'' (''Cannot read properties of undefined (reading '' @ k @ '')'')"

fun member :: "jsval \<Rightarrow> string \<Rightarrow> thrown + jsval" where
  "member JUndefined k = Inl (property_error k)"
| "member JNull k = Inl (property_error k)"
| "member (JObj ps) k = Inr (get ps k)"
| "member v k = Inr JUndefined"

text \<open>
  \<open>{...v}\<close>: the own enumerable properties of the value. A string and an array contribute
  their elements under the decimal indices; the other primitives contribute nothing.
\<close>

fun dec :: "nat \<Rightarrow> string" where
  "dec n = (if n < 10 then [char_of (48 + n)] else dec (n div 10) @ [char_of (48 + n mod 10)])"

definition indexed :: "jsval list \<Rightarrow> obj" where
  "indexed xs = map (\<lambda>(i, x). (dec i, x)) (enumerate 0 xs)"

fun spread :: "jsval \<Rightarrow> obj" where
  "spread (JObj ps) = ps"
| "spread (JArr xs) = indexed xs"
| "spread (JStr s) = indexed (map (\<lambda>c. JStr [c]) s)"
| "spread v = []"

text \<open>
  \<open>bcrypt.hash(data, rounds)\<close> is an external primitive and a parameter of the model: it
  yields the hash of one run (the salt is drawn inside it), or rejects.
\<close>

type_synonym hasher = "jsval \<Rightarrow> nat \<Rightarrow> thrown + string"

text \<open>
  Modelled from the spec: the data-access client's \<open>create\<close> and \<open>$transaction\<close> are
  external and the schema's constraints are not under src/. The spec has "two persisted
  records", a "unique-constraint violation (duplicate email)" that "surfaces as a
  data-access error", and an atomic multi-statement operation as "a set of writes that the
  data store guarantees to apply entirely or not at all". The constraints are a parameter:
  given a table and a new row they name the violation, if any. A write that violates
  nothing appends the row as given and yields it.
\<close>

record database =
  users :: "obj list"
  admins :: "obj list"

record constraints =
  user_violation :: "obj list \<Rightarrow> obj \<Rightarrow> thrown option"
  admin_violation :: "obj list \<Rightarrow> obj \<Rightarrow> thrown option"

datatype operation = UserCreate obj | AdminCreate obj

fun run_write :: "constraints \<Rightarrow> database \<Rightarrow> operation \<Rightarrow> thrown + (database \<times> obj)" where
  "run_write c db (UserCreate d) =
     (case user_violation c (users db) d of
        Some e \<Rightarrow> Inl e
      | None \<Rightarrow> Inr (db\<lparr>users := users db @ [d]\<rparr>, d))"
| "run_write c db (AdminCreate d) =
     (case admin_violation c (admins db) d of
        Some e \<Rightarrow> Inl e
      | None \<Rightarrow> Inr (db\<lparr>admins := admins db @ [d]\<rparr>, d))"

fun run_writes :: "constraints \<Rightarrow> database \<Rightarrow> operation list \<Rightarrow> thrown + (database \<times> obj list)" where
  "run_writes c db [] = Inr (db, [])"
| "run_writes c db (w # ws) =
     (case run_write c db w of
        Inl e \<Rightarrow> Inl e
      | Inr (db1, r) \<Rightarrow>
          (case run_writes c db1 ws of
             Inl e \<Rightarrow> Inl e
           | Inr (db2, rs) \<Rightarrow> Inr (db2, r # rs)))"

definition transaction ::
  "constraints \<Rightarrow> database \<Rightarrow> operation list \<Rightarrow> database \<times> (thrown + obj list)" where
  "transaction c db ws =
     (case run_writes c db ws of
        Inl e \<Rightarrow> (db, Inl e)
      | Inr (db1, rs) \<Rightarrow> (db1, Inr rs))"

text \<open>
  \<open>app/modules/User/user.service.ts\<close>. The state is passed in and returned; the result is
  the rejection or the returned object. \<open>item rs i\<close> is the element an array destructuring
  binds at position \<open>i\<close>. The \<open>console.log\<close> calls print and change nothing.
\<close>

definition userData :: "jsval \<Rightarrow> string \<Rightarrow> obj" where
  "userData email hashedPassword =
     [(''email'', email), (''password'', JStr hashedPassword), (''role'', JStr ''ADMIN'')]"

definition item :: "obj list \<Rightarrow> nat \<Rightarrow> jsval" where
  "item rs i = (if i < length rs then JObj (rs ! i) else JUndefined)"

definition createAdmin ::
  "hasher \<Rightarrow> constraints \<Rightarrow> database \<Rightarrow> jsval \<Rightarrow> database \<times> (thrown + jsval)" where
  "createAdmin hash c db data =
     (case member data ''password'' of
        Inl e \<Rightarrow> (db, Inl e)
      | Inr password \<Rightarrow>
     (case hash password 10 of
        Inl e \<Rightarrow> (db, Inl e)
      | Inr hashedPassword \<Rightarrow>
     (case member data ''admin'' of
        Inl e \<Rightarrow> (db, Inl e)
      | Inr admin \<Rightarrow>
     (case member admin ''email'' of
        Inl e \<Rightarrow> (db, Inl e)
      | Inr email \<Rightarrow>
     (case transaction c db
             [UserCreate (userData email hashedPassword), AdminCreate (spread admin)] of
        (db1, Inl e) \<Rightarrow> (db1, Inl e)
      | (db1, Inr rs) \<Rightarrow>
          (db1, Inr (JObj [(''createdUserData'', item rs 0),
                           (''createdAdminData'', item rs 1)])))))))"

text \<open>
  Instances for evaluating the model at concrete inputs; the theorems hold for every
  hasher and all constraints. \<open>unique_emails\<close> is the constraint the spec names (an email
  occurs once in a table); \<open>sample_hash\<close> stands in for the primitive and, like it,
  rejects data that is not a string.
\<close>

definition duplicate_email :: "obj list \<Rightarrow> obj \<Rightarrow> thrown option" where
  "duplicate_email tbl d =
     (if get d ''email'' \<in> set (map (\<lambda>r. get r ''email'') tbl)
      then Some (ErrorInstance ''PrismaClientKnownRequestError'' ''Unique constraint failed'')
      else None)"

definition unique_emails :: constraints where
  "unique_emails = \<lparr>user_violation = duplicate_email, admin_violation = duplicate_email\<rparr>"

fun sample_hash :: hasher where
  "sample_hash (JStr s) rounds = Inr (''$2b$'' @ dec rounds @ ''$'' @ rev s)"
| "sample_hash v rounds = Inl (ErrorInstance ''Error'' ''data and salt arguments required'')"

section \<open>Handlers\<close>

record request =
  body :: jsval
  query :: obj

record response =
  statusCode :: nat
  json :: jsval

text \<open>The body of the \<open>catch\<close> branch, with the handler's fallback message.\<close>

fun failure_body :: "string \<Rightarrow> thrown \<Rightarrow> jsval" where
  "failure_body fallback (ErrorInstance name msg) =
     JObj [(''success'', JBool False),
           (''message'', JStr (if name \<noteq> [] then name else fallback)),
           (''error'', JStr msg)]"
| "failure_body fallback (NonError v) =
     JObj [(''success'', JBool False), (''message'', JStr fallback), (''error'', v)]"

text \<open>\<open>app/modules/User/user.controller.ts\<close>.\<close>

definition userController_createAdmin ::
  "hasher \<Rightarrow> constraints \<Rightarrow> database \<Rightarrow> request \<Rightarrow> database \<times> response" where
  "userController_createAdmin hash c db req =
     (case createAdmin hash c db (body req) of
        (db1, Inr result) \<Rightarrow>
          (db1, \<lparr>statusCode = 200,
                 json = JObj [(''status'', JNum 200),
                              (''message'', JStr ''Admin Created Successfully!''),
                              (''data'', result)]\<rparr>)
      | (db1, Inl err) \<Rightarrow>
          (db1, \<lparr>statusCode = 500, json = failure_body ''Failed to create Admin'' err\<rparr>))"

text \<open>
  Modelled from the spec: \<open>shared/pick\<close> is not under src/. The handler calls it with the
  query and the four keys of the spec's listing interface ("any subset of these query
  parameters"): it yields the object holding, of the keys listed, those the query has,
  each with the query's value.
\<close>

definition pick :: "obj \<Rightarrow> string list \<Rightarrow> obj" where
  "pick ob ks = concat (map (\<lambda>k. case map_of ob k of None \<Rightarrow> [] | Some v \<Rightarrow> [(k, v)]) ks)"

definition safeKeys :: "string list" where
  "safeKeys = [''name'', ''email'', ''searchTerm'', ''contactNumber'']"

text \<open>
  \<open>app/modules/Admin/admin.controller.ts\<close>, the handler with the \<open>try\<close>/\<open>catch\<close>. Its
  body is written over the service call it awaits, so that it stands for whatever that call
  yields or throws: the client can reject for reasons of its own (a lost connection, a
  value it refuses), which the model of the client above does not list. The handler of the
  application is the body over \<open>AdminService.getAllFromDB\<close>.
\<close>

definition AdminController_getAllFromDB_over ::
  "(params \<Rightarrow> thrown + obj list) \<Rightarrow> request \<Rightarrow> response" where
  "AdminController_getAllFromDB_over service req =
     (let safeQuery = pick (query req) safeKeys
      in case service (PObject safeQuery) of
           Inr result \<Rightarrow>
             \<lparr>statusCode = 200,
              json = JObj [(''status'', JNum 200),
                           (''message'', JStr ''Admins Fetched Successfully!''),
                           (''data'', JArr (map JObj result))]\<rparr>
         | Inl err \<Rightarrow>
             \<lparr>statusCode = 500, json = failure_body ''Failed to fetch Admins'' err\<rparr>)"

definition AdminController_getAllFromDB ::
  "string list \<Rightarrow> obj list \<Rightarrow> request \<Rightarrow> response" where
  "AdminController_getAllFromDB schema rows req =
     AdminController_getAllFromDB_over (getAllFromDB schema rows) req"

text \<open>
  The earlier handler in the same file: it calls the service with no argument and has no
  \<open>catch\<close>, so a rejection of the service leaves the request without a response.
\<close>

datatype outcome = Responded response | Unhandled thrown

definition AdminController_getAllFromDB_noargs ::
  "string list \<Rightarrow> obj list \<Rightarrow> request \<Rightarrow> outcome" where
  "AdminController_getAllFromDB_noargs schema rows req =
     (case getAllFromDB schema rows PUndefined of
        Inr result \<Rightarrow>
          Responded \<lparr>statusCode = 200,
                     json = JObj [(''status'', JNum 200),
                                  (''message'', JStr ''Admins Fetched Successfully!''),
                                  (''data'', JArr (map JObj result))]\<rparr>
      | Inl err \<Rightarrow> Unhandled err)"

text \<open>The two envelopes of the interface, as predicates on a response.\<close>

definition success_envelope :: "response \<Rightarrow> bool" where
  "success_envelope res =
     (statusCode res = 200 \<and>
      (case json res of
         JObj ps \<Rightarrow> keys ps = [''status'', ''message'', ''data''] \<and> get ps ''status'' = JNum 200
       | _ \<Rightarrow> False))"

definition failure_envelope :: "response \<Rightarrow> bool" where
  "failure_envelope res =
     (statusCode res = 500 \<and>
      (case json res of
         JObj ps \<Rightarrow> keys ps = [''success'', ''message'', ''error''] \<and> get ps ''success'' = JBool False
       | _ \<Rightarrow> False))"

section \<open>The promised result of the listing\<close>






section \<open>Properties of the filter\<close>

lemma findMany_AND_Nil: "findMany schema rows (AND []) = Inr rows"
  by (simp add: findMany_def)

lemma findMany_AND_single: "findMany schema rows (AND [w]) = findMany schema rows w"
  by (simp add: findMany_def split: list.split)

lemma keys_Nil_iff: "keys ps = [] \<longleftrightarrow> ps = []"
  by (simp add: keys_def)

lemma addCondition_falsy:
  "\<not> truthy (get ps ''searchTerm'') \<Longrightarrow>
     addCondition ps = (if rest_of ps = [] then [] else [rest_clause (rest_of ps)])"
  by (simp add: addCondition_def Let_def keys_Nil_iff)

lemma addCondition_truthy:
  "truthy (get ps ''searchTerm'') \<Longrightarrow>
     addCondition ps =
       (if rest_of ps = [] then [search_clause ps]
        else [search_clause ps, rest_clause (rest_of ps)])"
  by (simp add: addCondition_def Let_def keys_Nil_iff)


lemma findMany_unknown:
  assumes "\<not> set (fields_of w) \<subseteq> set schema"
  shows "\<exists>k. k \<in> set (fields_of w) \<and> k \<notin> set schema
           \<and> findMany schema rows w = Inl (unknown_field k)"
proof -
  from assms have "filter (\<lambda>k. k \<notin> set schema) (fields_of w) \<noteq> []"
    by (auto simp: filter_empty_conv)
  then obtain k ks where e: "filter (\<lambda>k. k \<notin> set schema) (fields_of w) = k # ks"
    by (cases "filter (\<lambda>k. k \<notin> set schema) (fields_of w)") auto
  then have "k \<in> set (filter (\<lambda>k. k \<notin> set schema) (fields_of w))"
    by simp
  then have "k \<in> set (fields_of w) \<and> k \<notin> set schema"
    by simp
  moreover from e have "findMany schema rows w = Inl (unknown_field k)"
    by (simp add: findMany_def)
  ultimately show ?thesis by blast
qed

lemma distinct_rest_of: "distinct (keys ps) \<Longrightarrow> distinct (keys (rest_of ps))"
  by (simp add: keys_def rest_of_def distinct_map_filter)

lemma get_member: "distinct (keys ps) \<Longrightarrow> (k, v) \<in> set ps \<Longrightarrow> get ps k = v"
  by (simp add: keys_def get_def)

lemma rest_clause_pairs:
  assumes "distinct (keys rest)"
  shows "rest_clause rest = AND (map (\<lambda>(k, v). Field k (Equals v)) rest)"
proof -
  have "map (\<lambda>key. Field key (Equals (get rest key))) (keys rest) =
        map (\<lambda>p. Field (fst p) (Equals (get rest (fst p)))) rest"
    by (simp add: keys_def comp_def)
  also have "\<dots> = map (\<lambda>(k, v). Field k (Equals v)) rest"
    using assms by (auto simp: get_member)
  finally show ?thesis by (simp add: rest_clause_def)
qed

lemma fields_of_rest_clause: "fields_of (rest_clause rest) = keys rest"
  by (simp add: rest_clause_def comp_def)

lemma fields_of_search_clause: "fields_of (search_clause ps) = [''name'', ''email'']"
  by (simp add: search_clause_def adminSearchableFields_def)




lemma fields_of_whereConditions:
  "set (fields_of (whereConditions ps)) =
     (if truthy (get ps ''searchTerm'') then {''name'', ''email''} else {})
     \<union> set (keys (rest_of ps))"
  by (cases "truthy (get ps ''searchTerm'')")
     (auto simp: whereConditions_def addCondition_truthy addCondition_falsy
        fields_of_rest_clause fields_of_search_clause keys_def)






text \<open>
  C4. When \<open>searchTerm\<close> is absent from the parameters, bound to \<open>undefined\<close> or the empty
  string, the filter holds no substring clause: it is the exact-match clause alone when
  there are other keys and the empty conjunction otherwise, so the rows returned are those
  the exact-match clause admits, and all rows when there is none.
\<close>

theorem empty_searchTerm_no_substring_clause:
  assumes "map_of ps ''searchTerm'' = None \<or> map_of ps ''searchTerm'' = Some JUndefined
           \<or> map_of ps ''searchTerm'' = Some (JStr [])"
  shows "addCondition ps = (if rest_of ps = [] then [] else [rest_clause (rest_of ps)])
         \<and> search_clause ps \<notin> set (addCondition ps)
         \<and> getAllFromDB schema rows (PObject ps) =
             (if rest_of ps = [] then Inr rows
              else findMany schema rows (rest_clause (rest_of ps)))"
proof -
  from assms have "\<not> truthy (get ps ''searchTerm'')"
    by (auto simp: get_def)
  then have a: "addCondition ps = (if rest_of ps = [] then [] else [rest_clause (rest_of ps)])"
    by (rule addCondition_falsy)
  have b: "search_clause ps \<notin> set (addCondition ps)"
    by (simp add: a search_clause_def rest_clause_def)
  have c: "getAllFromDB schema rows (PObject ps) =
             (if rest_of ps = [] then Inr rows
              else findMany schema rows (rest_clause (rest_of ps)))"
    by (simp add: whereConditions_def a findMany_AND_Nil findMany_AND_single)
  from a b c show ?thesis by blast
qed

theorem empty_searchTerm_no_substring_clause_witness:
  "addCondition [(''searchTerm'', JStr []), (''name'', JStr ''John Doe'')] =
     [AND [Field ''name'' (Equals (JStr ''John Doe''))]]
   \<and> getAllFromDB [''name'', ''email'']
        [[(''name'', JStr ''John Doe'')], [(''name'', JStr ''Jane Roe'')]]
        (PObject [(''searchTerm'', JStr []), (''name'', JStr ''John Doe'')]) =
      Inr [[(''name'', JStr ''John Doe'')]]"
  using empty_searchTerm_no_substring_clause
    [of "[(''searchTerm'', JStr []), (''name'', JStr ''John Doe'')]" "[''name'', ''email'']"
        "[[(''name'', JStr ''John Doe'')], [(''name'', JStr ''Jane Roe'')]]"]
  by (simp add: rest_of_def rest_clause_def keys_def get_def findMany_def)

lemma rest_clause_in_addCondition:
  "rest_of ps \<noteq> [] \<Longrightarrow> rest_clause (rest_of ps) \<in> set (addCondition ps)"
  by (simp add: addCondition_def Let_def keys_Nil_iff)

lemma findMany_rows_satisfy:
  "findMany schema rows w = Inr rs \<Longrightarrow> r \<in> set rs \<Longrightarrow> satisfies r w"
  by (auto simp: findMany_def split: list.splits)

text \<open>
  C5, as the code has it. The exact-match clause holds one equality condition for every
  own key of the parameters other than \<open>searchTerm\<close>, in key order and with the key's
  value whatever it is: a key bound to \<open>undefined\<close> is kept, with the condition
  \<open>equals: undefined\<close>. The clause is added whenever there is such a key.
\<close>

theorem rest_clause_keeps_every_key:
  assumes "distinct (keys ps)"
  shows "rest_clause (rest_of ps) =
           AND (map (\<lambda>(k, v). Field k (Equals v)) (filter (\<lambda>(k, v). k \<noteq> ''searchTerm'') ps))
         \<and> (rest_of ps \<noteq> [] \<longrightarrow> rest_clause (rest_of ps) \<in> set (addCondition ps))"
proof -
  have "distinct (keys (rest_of ps))"
    using assms by (rule distinct_rest_of)
  then have "rest_clause (rest_of ps) = AND (map (\<lambda>(k, v). Field k (Equals v)) (rest_of ps))"
    by (rule rest_clause_pairs)
  then have "rest_clause (rest_of ps) =
           AND (map (\<lambda>(k, v). Field k (Equals v)) (filter (\<lambda>(k, v). k \<noteq> ''searchTerm'') ps))"
    by (simp add: rest_of_def)
  moreover have "rest_of ps \<noteq> [] \<longrightarrow> rest_clause (rest_of ps) \<in> set (addCondition ps)"
    by (simp add: rest_clause_in_addCondition)
  ultimately show ?thesis by blast
qed

theorem rest_clause_keeps_every_key_witness:
  "distinct (keys [(''name'', JStr ''A''), (''searchTerm'', JStr ''a''), (''email'', JUndefined)])
   \<and> rest_clause
        (rest_of [(''name'', JStr ''A''), (''searchTerm'', JStr ''a''), (''email'', JUndefined)]) =
       AND [Field ''name'' (Equals (JStr ''A'')), Field ''email'' (Equals JUndefined)]"
proof -
  have d: "distinct (keys [(''name'', JStr ''A''), (''searchTerm'', JStr ''a''),
                           (''email'', JUndefined)])"
    by (simp add: keys_def)
  from rest_clause_keeps_every_key [OF d] d show ?thesis
    by simp
qed

text \<open>
  C5, as the spec states it, fails: for the parameters \<open>{name: undefined}\<close> the filter
  holds the exact-match clause with an equality condition for \<open>name\<close>, a key bound to
  \<open>undefined\<close>.
\<close>

theorem undefined_key_not_excluded:
  "addCondition [(''name'', JUndefined)] = [AND [Field ''name'' (Equals JUndefined)]]"
  by (simp add: addCondition_def rest_of_def rest_clause_def keys_def get_def)

text \<open>
  C10. The empty string is treated differently by key. An empty \<open>searchTerm\<close> adds no
  clause. Any other key bound to the empty string puts the exact-match clause into the
  filter with the condition that the field equals the empty string, so every row returned
  has the empty string in that field; a request with that key alone returns exactly the
  rows whose field is the empty string.
\<close>

theorem empty_string_asymmetry:
  assumes "distinct (keys ps)" and "(k, JStr []) \<in> set ps" and "k \<noteq> ''searchTerm''"
  shows "addCondition [(''searchTerm'', JStr [])] = []
         \<and> (get ps ''searchTerm'' = JStr [] \<longrightarrow> search_clause ps \<notin> set (addCondition ps))
         \<and> rest_clause (rest_of ps) \<in> set (addCondition ps)
         \<and> (\<exists>cs. rest_clause (rest_of ps) = AND cs \<and> Field k (Equals (JStr [])) \<in> set cs)
         \<and> (\<forall>rs. getAllFromDB schema rows (PObject ps) = Inr rs \<longrightarrow>
                (\<forall>r \<in> set rs. map_of r k = Some (JStr [])))
         \<and> (k \<in> set schema \<longrightarrow>
              getAllFromDB schema rows (PObject [(k, JStr [])]) =
                Inr (filter (\<lambda>r. map_of r k = Some (JStr [])) rows))"
proof -
  from assms(2,3) have mem: "(k, JStr []) \<in> set (rest_of ps)"
    by (simp add: rest_of_def)
  then have ne: "rest_of ps \<noteq> []"
    by auto
  have pairs: "rest_clause (rest_of ps) = AND (map (\<lambda>(k, v). Field k (Equals v)) (rest_of ps))"
    using assms(1) by (simp add: rest_clause_pairs distinct_rest_of)
  have a: "addCondition [(''searchTerm'', JStr [])] = []"
    by (simp add: addCondition_def rest_of_def keys_def get_def)
  have b: "get ps ''searchTerm'' = JStr [] \<longrightarrow> search_clause ps \<notin> set (addCondition ps)"
    by (auto simp: addCondition_falsy search_clause_def rest_clause_def)
  have c: "rest_clause (rest_of ps) \<in> set (addCondition ps)"
    using ne by (rule rest_clause_in_addCondition)
  have d: "\<exists>cs. rest_clause (rest_of ps) = AND cs \<and> Field k (Equals (JStr [])) \<in> set cs"
    using pairs mem by force
  have e: "\<forall>rs. getAllFromDB schema rows (PObject ps) = Inr rs \<longrightarrow>
                (\<forall>r \<in> set rs. map_of r k = Some (JStr []))"
  proof (intro allI impI ballI)
    fix rs r
    assume "getAllFromDB schema rows (PObject ps) = Inr rs" and "r \<in> set rs"
    then have "satisfies r (whereConditions ps)"
      by (simp add: findMany_rows_satisfy)
    with c have "satisfies r (rest_clause (rest_of ps))"
      by (simp add: whereConditions_def)
    with pairs mem show "map_of r k = Some (JStr [])"
      by auto
  qed
  have f: "k \<in> set schema \<longrightarrow>
              getAllFromDB schema rows (PObject [(k, JStr [])]) =
                Inr (filter (\<lambda>r. map_of r k = Some (JStr [])) rows)"
    using assms(3)
    by (simp add: whereConditions_def addCondition_def rest_of_def rest_clause_def keys_def
          get_def findMany_def)
  from a b c d e f show ?thesis by blast
qed

theorem empty_string_asymmetry_witness:
  "distinct (keys [(''name'', JStr [])]) \<and> (''name'', JStr []) \<in> set [(''name'', JStr [])]
   \<and> ''name'' \<noteq> ''searchTerm''
   \<and> addCondition [(''searchTerm'', JStr [])] = []
   \<and> addCondition [(''name'', JStr [])] = [AND [Field ''name'' (Equals (JStr []))]]
   \<and> getAllFromDB [''name'', ''email'']
        [[(''name'', JStr ''John Doe'')], [(''name'', JStr [])]]
        (PObject [(''name'', JStr [])]) =
      Inr [[(''name'', JStr [])]]"
proof -
  have h1: "distinct (keys [(''name'', JStr [])])"
    by (simp add: keys_def)
  have h2: "(''name'', JStr []) \<in> set [(''name'', JStr [])]"
    by simp
  have h3: "''name'' \<noteq> ''searchTerm''"
    by simp
  have x: "addCondition [(''name'', JStr [])] = [AND [Field ''name'' (Equals (JStr []))]]"
    by (simp add: addCondition_def rest_of_def rest_clause_def keys_def get_def)
  from empty_string_asymmetry [OF h1 h2 h3, of "[''name'', ''email'']"
      "[[(''name'', JStr ''John Doe'')], [(''name'', JStr [])]]"] h1 h2 x
  show ?thesis
    by simp
qed

text \<open>
  C9. The service needs an object: called with \<open>undefined\<close> (no argument) or \<open>null\<close>, the
  destructuring throws the \<open>TypeError\<close> whatever the schema and the stored rows are, before
  a filter is built; called with an object it hands the filter to the data-access client
  and never fails with that error. The earlier handler, which passes no argument, is
  therefore left with the unhandled rejection on every request.
\<close>

theorem getAllFromDB_needs_object:
  "(getAllFromDB schema rows p = Inl destructure_error) = (p = PUndefined \<or> p = PNull)
   \<and> getAllFromDB schema rows (PObject ps) = findMany schema rows (whereConditions ps)
   \<and> AdminController_getAllFromDB_noargs schema rows req = Unhandled destructure_error"
proof -
  have "findMany schema rows w \<noteq> Inl destructure_error" for w
    by (simp add: findMany_def unknown_field_def destructure_error_def split: list.split)
  then have "(getAllFromDB schema rows p = Inl destructure_error) = (p = PUndefined \<or> p = PNull)"
    by (cases p) simp_all
  then show ?thesis
    by (simp add: AdminController_getAllFromDB_noargs_def)
qed

theorem getAllFromDB_needs_object_witness:
  "getAllFromDB [''name''] [[(''name'', JStr ''A'')]] PUndefined = Inl destructure_error
   \<and> getAllFromDB [''name''] [[(''name'', JStr ''A'')]] PNull = Inl destructure_error
   \<and> getAllFromDB [''name''] [[(''name'', JStr ''A'')]] (PObject []) = Inr [[(''name'', JStr ''A'')]]"
  using getAllFromDB_needs_object [of "[''name'']" "[[(''name'', JStr ''A'')]]" PUndefined "[]"]
    getAllFromDB_needs_object [of "[''name'']" "[[(''name'', JStr ''A'')]]" PNull "[]"]
  by (simp add: whereConditions_def addCondition_def rest_of_def keys_def get_def findMany_def)

section \<open>Properties of the admin creation\<close>

lemma transaction_failure_keeps_state:
  "transaction c db ws = (db1, Inl e) \<Longrightarrow> db1 = db"
  by (auto simp: transaction_def split: sum.splits)

lemma transaction_pair:
  "transaction c db [UserCreate u, AdminCreate a] =
     (case user_violation c (users db) u of
        Some e \<Rightarrow> (db, Inl e)
      | None \<Rightarrow>
          (case admin_violation c (admins db) a of
             Some e \<Rightarrow> (db, Inl e)
           | None \<Rightarrow> (db\<lparr>users := users db @ [u], admins := admins db @ [a]\<rparr>, Inr [u, a])))"
  by (simp add: transaction_def split: option.split)

lemma createAdmin_steps:
  assumes "member data ''password'' = Inr pw" and "hash pw 10 = Inr hashed"
    and "member data ''admin'' = Inr ad" and "member ad ''email'' = Inr em"
  shows "createAdmin hash c db data =
     (case user_violation c (users db) (userData em hashed) of
        Some e \<Rightarrow> (db, Inl e)
      | None \<Rightarrow>
          (case admin_violation c (admins db) (spread ad) of
             Some e \<Rightarrow> (db, Inl e)
           | None \<Rightarrow>
               (db\<lparr>users := users db @ [userData em hashed],
                    admins := admins db @ [spread ad]\<rparr>,
                Inr (JObj [(''createdUserData'', JObj (userData em hashed)),
                           (''createdAdminData'', JObj (spread ad))]))))"
  using assms
  by (simp add: createAdmin_def transaction_pair item_def split: option.split)

lemma createAdmin_cases:
  obtains (password) e where "member data ''password'' = Inl e"
      and "createAdmin hash c db data = (db, Inl e)"
  | (hashing) pw e where "member data ''password'' = Inr pw" and "hash pw 10 = Inl e"
      and "createAdmin hash c db data = (db, Inl e)"
  | (email) pw hashed ad e where "member data ''password'' = Inr pw"
      and "hash pw 10 = Inr hashed" and "member data ''admin'' = Inr ad"
      and "member ad ''email'' = Inl e" and "createAdmin hash c db data = (db, Inl e)"
  | (writes) pw hashed ad em where "member data ''password'' = Inr pw"
      and "hash pw 10 = Inr hashed" and "member data ''admin'' = Inr ad"
      and "member ad ''email'' = Inr em"
proof (cases "member data ''password''")
  case (Inl e)
  then show ?thesis using password by (simp add: createAdmin_def)
next
  case pw: (Inr pw)
  show ?thesis
  proof (cases "hash pw 10")
    case (Inl e)
    with pw show ?thesis using hashing by (simp add: createAdmin_def)
  next
    case h: (Inr hashed)
    from pw obtain ad where ad: "member data ''admin'' = Inr ad"
      by (cases data) auto
    show ?thesis
    proof (cases "member ad ''email''")
      case (Inl e)
      with pw h ad show ?thesis using email by (simp add: createAdmin_def)
    next
      case (Inr em)
      with pw h ad show ?thesis using writes by blast
    qed
  qed
qed

text \<open>
  C2. The two records are written as one unit. Whenever the call fails, for whatever
  reason, the database it leaves is the one it found; in particular, when the user write
  or the admin write violates a constraint the call fails and neither record is there.
  Whenever the call succeeds, the database holds one more user and one more admin, the two
  records returned.
\<close>

theorem createAdmin_atomic:
  assumes "createAdmin hash c db data = (db1, res)"
  shows "(isl res \<longrightarrow> db1 = db)
         \<and> (\<forall>out. res = Inr out \<longrightarrow>
               (\<exists>u a. db1 = db\<lparr>users := users db @ [u], admins := admins db @ [a]\<rparr>
                  \<and> out = JObj [(''createdUserData'', JObj u), (''createdAdminData'', JObj a)]))
         \<and> (\<forall>pw hashed ad em.
               member data ''password'' = Inr pw \<and> hash pw 10 = Inr hashed
               \<and> member data ''admin'' = Inr ad \<and> member ad ''email'' = Inr em
               \<and> (user_violation c (users db) (userData em hashed) \<noteq> None
                    \<or> admin_violation c (admins db) (spread ad) \<noteq> None)
               \<longrightarrow> isl res \<and> db1 = db)"
proof (cases rule: createAdmin_cases [of data hash c db])
  case (password e)
  with assms show ?thesis by auto
next
  case (hashing pw e)
  with assms show ?thesis by auto
next
  case (email pw hashed ad e)
  with assms show ?thesis by auto
next
  case (writes pw hashed ad em)
  note st = createAdmin_steps [where hash = hash and c = c and db = db, OF writes]
  show ?thesis
  proof (cases "user_violation c (users db) (userData em hashed)")
    case (Some e)
    with st assms writes show ?thesis by auto
  next
    case uok: None
    show ?thesis
    proof (cases "admin_violation c (admins db) (spread ad)")
      case (Some e)
      with st uok assms writes show ?thesis by auto
    next
      case None
      with st uok assms writes show ?thesis by auto
    qed
  qed
qed

theorem createAdmin_atomic_witness:
  "createAdmin sample_hash unique_emails
     \<lparr>users = [], admins = [[(''email'', JStr ''a@x.com''), (''name'', JStr ''Old'')]]\<rparr>
     (JObj [(''password'', JStr ''Secret1''),
            (''admin'', JObj [(''email'', JStr ''a@x.com''), (''name'', JStr ''A'')])]) =
     (\<lparr>users = [], admins = [[(''email'', JStr ''a@x.com''), (''name'', JStr ''Old'')]]\<rparr>,
      Inl (ErrorInstance ''PrismaClientKnownRequestError'' ''Unique constraint failed''))
   \<and> user_violation unique_emails []
        (userData (JStr ''a@x.com'') (''$2b$10$'' @ rev ''Secret1'')) = None"
proof -
  let ?db = "\<lparr>users = [], admins = [[(''email'', JStr ''a@x.com''), (''name'', JStr ''Old'')]]\<rparr>"
  let ?data = "JObj [(''password'', JStr ''Secret1''),
            (''admin'', JObj [(''email'', JStr ''a@x.com''), (''name'', JStr ''A'')])]"
  obtain db1 res where r: "createAdmin sample_hash unique_emails ?db ?data = (db1, res)"
    by (cases "createAdmin sample_hash unique_emails ?db ?data") blast
  have h: "sample_hash (JStr ''Secret1'') 10 = Inr (''$2b$10$'' @ rev ''Secret1'')"
    by code_simp
  have v: "admin_violation unique_emails (admins ?db)
             (spread (JObj [(''email'', JStr ''a@x.com''), (''name'', JStr ''A'')])) \<noteq> None"
    by (simp add: unique_emails_def duplicate_email_def get_def)
  have u: "user_violation unique_emails []
        (userData (JStr ''a@x.com'') (''$2b$10$'' @ rev ''Secret1'')) = None"
    by (simp add: unique_emails_def duplicate_email_def)
  from createAdmin_atomic [OF r] h v have "isl res \<and> db1 = ?db"
    by (simp add: get_def)
  moreover have "res = Inl (ErrorInstance ''PrismaClientKnownRequestError'' ''Unique constraint failed'')"
    using r
    by (simp add: createAdmin_def transaction_def unique_emails_def duplicate_email_def
          userData_def get_def)
  ultimately show ?thesis using r u by simp
qed

text \<open>
  C3. For a payload object whose \<open>password\<close> is a string that the primitive hashes and
  whose \<open>admin\<close> is an object, the call hands to one transaction the user record
  \<open>{email: admin.email, password: hashed, role: ADMIN}\<close> and the admin object as it came,
  and returns what the transaction yields; when neither write violates a constraint, both
  records are stored and returned as \<open>createdUserData\<close> and \<open>createdAdminData\<close>.
\<close>

theorem createAdmin_builds_records:
  assumes "get ps ''password'' = JStr pw" and "get ps ''admin'' = JObj ad"
    and "hash (JStr pw) 10 = Inr hashed"
  shows "createAdmin hash c db (JObj ps) =
           (case transaction c db
                   [UserCreate [(''email'', get ad ''email''), (''password'', JStr hashed),
                                (''role'', JStr ''ADMIN'')],
                    AdminCreate ad] of
              (db1, Inl e) \<Rightarrow> (db1, Inl e)
            | (db1, Inr rs) \<Rightarrow>
                (db1, Inr (JObj [(''createdUserData'', item rs 0),
                                 (''createdAdminData'', item rs 1)])))
         \<and> (user_violation c (users db)
                [(''email'', get ad ''email''), (''password'', JStr hashed),
                 (''role'', JStr ''ADMIN'')] = None
              \<and> admin_violation c (admins db) ad = None \<longrightarrow>
              createAdmin hash c db (JObj ps) =
                (db\<lparr>users := users db @
                        [[(''email'', get ad ''email''), (''password'', JStr hashed),
                          (''role'', JStr ''ADMIN'')]],
                     admins := admins db @ [ad]\<rparr>,
                 Inr (JObj [(''createdUserData'',
                              JObj [(''email'', get ad ''email''), (''password'', JStr hashed),
                                    (''role'', JStr ''ADMIN'')]),
                            (''createdAdminData'', JObj ad)])))"
proof -
  have a: "createAdmin hash c db (JObj ps) =
           (case transaction c db
                   [UserCreate [(''email'', get ad ''email''), (''password'', JStr hashed),
                                (''role'', JStr ''ADMIN'')],
                    AdminCreate ad] of
              (db1, Inl e) \<Rightarrow> (db1, Inl e)
            | (db1, Inr rs) \<Rightarrow>
                (db1, Inr (JObj [(''createdUserData'', item rs 0),
                                 (''createdAdminData'', item rs 1)])))"
    using assms by (simp add: createAdmin_def userData_def split: prod.split sum.split)
  have m: "member (JObj ps) ''password'' = Inr (JStr pw)"
      "member (JObj ps) ''admin'' = Inr (JObj ad)"
      "member (JObj ad) ''email'' = Inr (get ad ''email'')"
    using assms by simp_all
  note st = createAdmin_steps [where hash = hash and c = c and db = db, OF m(1) assms(3) m(2,3)]
  have b: "user_violation c (users db)
                [(''email'', get ad ''email''), (''password'', JStr hashed),
                 (''role'', JStr ''ADMIN'')] = None
              \<and> admin_violation c (admins db) ad = None \<longrightarrow>
              createAdmin hash c db (JObj ps) =
                (db\<lparr>users := users db @
                        [[(''email'', get ad ''email''), (''password'', JStr hashed),
                          (''role'', JStr ''ADMIN'')]],
                     admins := admins db @ [ad]\<rparr>,
                 Inr (JObj [(''createdUserData'',
                              JObj [(''email'', get ad ''email''), (''password'', JStr hashed),
                                    (''role'', JStr ''ADMIN'')]),
                            (''createdAdminData'', JObj ad)]))"
    using st by (simp add: userData_def)
  from a b show ?thesis by blast
qed

theorem createAdmin_builds_records_witness:
  "createAdmin sample_hash unique_emails \<lparr>users = [], admins = []\<rparr>
     (JObj [(''password'', JStr ''Secret1''),
            (''admin'', JObj [(''email'', JStr ''a@x.com''), (''name'', JStr ''A'')])]) =
     (\<lparr>users = [[(''email'', JStr ''a@x.com''), (''password'', JStr ''$2b$10$1terceS''),
                  (''role'', JStr ''ADMIN'')]],
       admins = [[(''email'', JStr ''a@x.com''), (''name'', JStr ''A'')]]\<rparr>,
      Inr (JObj [(''createdUserData'',
                   JObj [(''email'', JStr ''a@x.com''), (''password'', JStr ''$2b$10$1terceS''),
                         (''role'', JStr ''ADMIN'')]),
                 (''createdAdminData'',
                   JObj [(''email'', JStr ''a@x.com''), (''name'', JStr ''A'')])]))"
proof -
  let ?ad = "[(''email'', JStr ''a@x.com''), (''name'', JStr ''A'')]"
  let ?ps = "[(''password'', JStr ''Secret1''), (''admin'', JObj ?ad)]"
  have h1: "get ?ps ''password'' = JStr ''Secret1''"
    by (simp add: get_def)
  have h2: "get ?ps ''admin'' = JObj ?ad"
    by (simp add: get_def)
  have h3: "sample_hash (JStr ''Secret1'') 10 = Inr ''$2b$10$1terceS''"
    by code_simp
  have e: "get ?ad ''email'' = JStr ''a@x.com''"
    by (simp add: get_def)
  have v: "user_violation unique_emails [] d = None \<and> admin_violation unique_emails [] d = None"
    for d
    by (simp add: unique_emails_def duplicate_email_def)
  from createAdmin_builds_records [where hash = sample_hash and c = unique_emails
      and db = "\<lparr>users = [], admins = []\<rparr>", OF h1 h2 h3, THEN conjunct2]
  show ?thesis
    by (simp add: e v)
qed

text \<open>
  C7. The service applies the hash primitive to the payload's password with the cost
  factor 10 and with no other: two primitives that agree at cost 10 give the same run.
  When the call succeeds, the \<open>password\<close> field of the stored user record is the hash the
  primitive returned, so it is the plaintext only if the primitive returned its input.
\<close>

theorem createAdmin_hashes_with_cost_10:
  "((\<forall>p. hash p 10 = hash2 p 10) \<longrightarrow>
      createAdmin hash c db data = createAdmin hash2 c db data)
   \<and> (\<forall>db1 out. createAdmin hash c db data = (db1, Inr out) \<longrightarrow>
         (\<exists>pw hashed u. member data ''password'' = Inr pw \<and> hash pw 10 = Inr hashed
            \<and> users db1 = users db @ [u] \<and> get u ''password'' = JStr hashed
            \<and> (pw \<noteq> JStr hashed \<longrightarrow> get u ''password'' \<noteq> pw)))"
proof -
  have a: "(\<forall>p. hash p 10 = hash2 p 10) \<longrightarrow>
      createAdmin hash c db data = createAdmin hash2 c db data"
    by (cases "member data ''password''") (simp_all add: createAdmin_def)
  have b: "\<forall>db1 out. createAdmin hash c db data = (db1, Inr out) \<longrightarrow>
         (\<exists>pw hashed u. member data ''password'' = Inr pw \<and> hash pw 10 = Inr hashed
            \<and> users db1 = users db @ [u] \<and> get u ''password'' = JStr hashed
            \<and> (pw \<noteq> JStr hashed \<longrightarrow> get u ''password'' \<noteq> pw))"
  proof (intro allI impI)
    fix db1 out
    assume r: "createAdmin hash c db data = (db1, Inr out)"
    show "\<exists>pw hashed u. member data ''password'' = Inr pw \<and> hash pw 10 = Inr hashed
            \<and> users db1 = users db @ [u] \<and> get u ''password'' = JStr hashed
            \<and> (pw \<noteq> JStr hashed \<longrightarrow> get u ''password'' \<noteq> pw)"
    proof (cases rule: createAdmin_cases [of data hash c db])
      case (password e)
      with r show ?thesis by simp
    next
      case (hashing pw e)
      with r show ?thesis by simp
    next
      case (email pw hashed ad e)
      with r show ?thesis by simp
    next
      case (writes pw hashed ad em)
      note st = createAdmin_steps [where hash = hash and c = c and db = db, OF writes]
      have p: "get (userData em hashed) ''password'' = JStr hashed"
        by (simp add: userData_def get_def)
      from st r have "users db1 = users db @ [userData em hashed]"
        by (auto split: option.splits)
      with writes p show ?thesis by auto
    qed
  qed
  from a b show ?thesis by blast
qed

theorem createAdmin_hashes_with_cost_10_witness:
  "(\<forall>p. sample_hash p 10 = (\<lambda>p n. sample_hash p 10) p 10)
   \<and> createAdmin sample_hash unique_emails \<lparr>users = [], admins = []\<rparr>
        (JObj [(''password'', JStr ''Secret1''), (''admin'', JObj [(''email'', JStr ''a@x.com'')])]) =
       createAdmin (\<lambda>p n. sample_hash p 10) unique_emails \<lparr>users = [], admins = []\<rparr>
        (JObj [(''password'', JStr ''Secret1''), (''admin'', JObj [(''email'', JStr ''a@x.com'')])])
   \<and> createAdmin sample_hash unique_emails \<lparr>users = [], admins = []\<rparr>
        (JObj [(''password'', JStr ''Secret1''), (''admin'', JObj [(''email'', JStr ''a@x.com'')])]) =
       (\<lparr>users = [[(''email'', JStr ''a@x.com''), (''password'', JStr ''$2b$10$1terceS''),
                    (''role'', JStr ''ADMIN'')]],
         admins = [[(''email'', JStr ''a@x.com'')]]\<rparr>,
        Inr (JObj [(''createdUserData'',
                     JObj [(''email'', JStr ''a@x.com''), (''password'', JStr ''$2b$10$1terceS''),
                           (''role'', JStr ''ADMIN'')]),
                   (''createdAdminData'', JObj [(''email'', JStr ''a@x.com'')])]))
   \<and> (\<exists>pw hashed u.
         member (JObj [(''password'', JStr ''Secret1''),
                       (''admin'', JObj [(''email'', JStr ''a@x.com'')])]) ''password'' = Inr pw
         \<and> sample_hash pw 10 = Inr hashed
         \<and> [[(''email'', JStr ''a@x.com''), (''password'', JStr ''$2b$10$1terceS''),
               (''role'', JStr ''ADMIN'')]] = [] @ [u]
         \<and> get u ''password'' = JStr hashed
         \<and> (pw \<noteq> JStr hashed \<longrightarrow> get u ''password'' \<noteq> pw))"
proof -
  let ?db = "\<lparr>users = [], admins = []\<rparr>"
  let ?data = "JObj [(''password'', JStr ''Secret1''),
                     (''admin'', JObj [(''email'', JStr ''a@x.com'')])]"
  let ?db1 = "\<lparr>users = [[(''email'', JStr ''a@x.com''), (''password'', JStr ''$2b$10$1terceS''),
                    (''role'', JStr ''ADMIN'')]],
         admins = [[(''email'', JStr ''a@x.com'')]]\<rparr>"
  let ?out = "JObj [(''createdUserData'',
                     JObj [(''email'', JStr ''a@x.com''), (''password'', JStr ''$2b$10$1terceS''),
                           (''role'', JStr ''ADMIN'')]),
                   (''createdAdminData'', JObj [(''email'', JStr ''a@x.com'')])]"
  have h: "sample_hash (JStr ''Secret1'') 10 = Inr ''$2b$10$1terceS''"
    by code_simp
  have r: "createAdmin sample_hash unique_emails ?db ?data = (?db1, Inr ?out)"
    by (simp add: createAdmin_def h transaction_def unique_emails_def duplicate_email_def
          userData_def get_def item_def del: sample_hash.simps)
  note t = createAdmin_hashes_with_cost_10
    [of sample_hash "\<lambda>p n. sample_hash p 10" unique_emails ?db ?data]
  have a: "\<forall>p. sample_hash p 10 = (\<lambda>p n. sample_hash p 10) p 10"
    by simp
  from t a have b: "createAdmin sample_hash unique_emails ?db ?data =
      createAdmin (\<lambda>p n. sample_hash p 10) unique_emails ?db ?data"
    by blast
  from t r have c: "\<exists>pw hashed u. member ?data ''password'' = Inr pw
      \<and> sample_hash pw 10 = Inr hashed \<and> users ?db1 = users ?db @ [u]
      \<and> get u ''password'' = JStr hashed \<and> (pw \<noteq> JStr hashed \<longrightarrow> get u ''password'' \<noteq> pw)"
    by blast
  from a b r c show ?thesis
    by simp
qed

section \<open>Properties of the handlers\<close>

lemma failure_body_envelope:
  "failure_envelope \<lparr>statusCode = 500, json = failure_body fallback err\<rparr>"
  by (cases err) (simp_all add: failure_envelope_def keys_def get_def)

lemma failure_body_not_success:
  "\<not> success_envelope \<lparr>statusCode = 500, json = failure_body fallback err\<rparr>"
  by (simp add: success_envelope_def)

lemma AdminController_failure:
  "getAllFromDB schema rows (PObject (pick (query req) safeKeys)) = Inl err \<Longrightarrow>
     AdminController_getAllFromDB schema rows req =
       \<lparr>statusCode = 500, json = failure_body ''Failed to fetch Admins'' err\<rparr>"
  by (simp add: AdminController_getAllFromDB_def AdminController_getAllFromDB_over_def)

lemma AdminController_success:
  "getAllFromDB schema rows (PObject (pick (query req) safeKeys)) = Inr result \<Longrightarrow>
     AdminController_getAllFromDB schema rows req =
       \<lparr>statusCode = 200,
        json = JObj [(''status'', JNum 200),
                     (''message'', JStr ''Admins Fetched Successfully!''),
                     (''data'', JArr (map JObj result))]\<rparr>"
  by (simp add: AdminController_getAllFromDB_def AdminController_getAllFromDB_over_def)

lemma AdminController_over_failure:
  "service (PObject (pick (query req) safeKeys)) = Inl err \<Longrightarrow>
     AdminController_getAllFromDB_over service req =
       \<lparr>statusCode = 500, json = failure_body ''Failed to fetch Admins'' err\<rparr>"
  by (simp add: AdminController_getAllFromDB_over_def)

lemma AdminController_over_success:
  "service (PObject (pick (query req) safeKeys)) = Inr result \<Longrightarrow>
     AdminController_getAllFromDB_over service req =
       \<lparr>statusCode = 200,
        json = JObj [(''status'', JNum 200),
                     (''message'', JStr ''Admins Fetched Successfully!''),
                     (''data'', JArr (map JObj result))]\<rparr>"
  by (simp add: AdminController_getAllFromDB_over_def)

text \<open>
  C8. Each handler answers with status 200 and the envelope \<open>{status, message, data}\<close>
  exactly when its service call succeeds, with the service's result as \<open>data\<close>, and with
  status 500 and the envelope \<open>{success: false, message, error}\<close> exactly when the call
  throws, whatever is thrown: the body of the \<open>catch\<close> branch for that error. For the
  listing this holds over every service call the handler could await, and the handler of
  the application is that body over the admin service. The handler of the admin creation
  leaves the database as the service left it.
\<close>

theorem handlers_envelopes:
  "success_envelope (snd (userController_createAdmin hash c db req)) =
     (\<not> isl (snd (createAdmin hash c db (body req))))
   \<and> failure_envelope (snd (userController_createAdmin hash c db req)) =
       isl (snd (createAdmin hash c db (body req)))
   \<and> fst (userController_createAdmin hash c db req) = fst (createAdmin hash c db (body req))
   \<and> (\<forall>result. snd (createAdmin hash c db (body req)) = Inr result \<longrightarrow>
         json (snd (userController_createAdmin hash c db req)) =
           JObj [(''status'', JNum 200), (''message'', JStr ''Admin Created Successfully!''),
                 (''data'', result)])
   \<and> (\<forall>err. snd (createAdmin hash c db (body req)) = Inl err \<longrightarrow>
         json (snd (userController_createAdmin hash c db req)) =
           failure_body ''Failed to create Admin'' err)
   \<and> success_envelope (AdminController_getAllFromDB_over service req) =
       (\<not> isl (service (PObject (pick (query req) safeKeys))))
   \<and> failure_envelope (AdminController_getAllFromDB_over service req) =
       isl (service (PObject (pick (query req) safeKeys)))
   \<and> (\<forall>result. service (PObject (pick (query req) safeKeys)) = Inr result \<longrightarrow>
         json (AdminController_getAllFromDB_over service req) =
           JObj [(''status'', JNum 200), (''message'', JStr ''Admins Fetched Successfully!''),
                 (''data'', JArr (map JObj result))])
   \<and> (\<forall>err. service (PObject (pick (query req) safeKeys)) = Inl err \<longrightarrow>
         json (AdminController_getAllFromDB_over service req) =
           failure_body ''Failed to fetch Admins'' err)
   \<and> AdminController_getAllFromDB schema rows req =
       AdminController_getAllFromDB_over (getAllFromDB schema rows) req"
proof -
  obtain db1 res where r: "createAdmin hash c db (body req) = (db1, res)"
    by (cases "createAdmin hash c db (body req)") blast
  have u: "success_envelope (snd (userController_createAdmin hash c db req)) =
             (\<not> isl (snd (createAdmin hash c db (body req))))
           \<and> failure_envelope (snd (userController_createAdmin hash c db req)) =
               isl (snd (createAdmin hash c db (body req)))
           \<and> fst (userController_createAdmin hash c db req) =
               fst (createAdmin hash c db (body req))
           \<and> (\<forall>result. snd (createAdmin hash c db (body req)) = Inr result \<longrightarrow>
                 json (snd (userController_createAdmin hash c db req)) =
                   JObj [(''status'', JNum 200),
                         (''message'', JStr ''Admin Created Successfully!''),
                         (''data'', result)])
           \<and> (\<forall>err. snd (createAdmin hash c db (body req)) = Inl err \<longrightarrow>
                 json (snd (userController_createAdmin hash c db req)) =
                   failure_body ''Failed to create Admin'' err)"
  proof (cases res)
    case (Inl err)
    with r show ?thesis
      by (simp add: userController_createAdmin_def failure_body_envelope
            failure_body_not_success)
  next
    case (Inr result)
    with r show ?thesis
      by (simp add: userController_createAdmin_def success_envelope_def failure_envelope_def
            keys_def get_def)
  qed
  have a: "success_envelope (AdminController_getAllFromDB_over service req) =
             (\<not> isl (service (PObject (pick (query req) safeKeys))))
           \<and> failure_envelope (AdminController_getAllFromDB_over service req) =
               isl (service (PObject (pick (query req) safeKeys)))
           \<and> (\<forall>result. service (PObject (pick (query req) safeKeys)) = Inr result \<longrightarrow>
                 json (AdminController_getAllFromDB_over service req) =
                   JObj [(''status'', JNum 200),
                         (''message'', JStr ''Admins Fetched Successfully!''),
                         (''data'', JArr (map JObj result))])
           \<and> (\<forall>err. service (PObject (pick (query req) safeKeys)) = Inl err \<longrightarrow>
                 json (AdminController_getAllFromDB_over service req) =
                   failure_body ''Failed to fetch Admins'' err)"
  proof (cases "service (PObject (pick (query req) safeKeys))")
    case (Inl err)
    then show ?thesis
      by (simp add: AdminController_over_failure failure_body_envelope
            failure_body_not_success)
  next
    case (Inr result)
    then show ?thesis
      by (simp add: AdminController_over_success success_envelope_def failure_envelope_def
            keys_def get_def)
  qed
  have t: "AdminController_getAllFromDB schema rows req =
       AdminController_getAllFromDB_over (getAllFromDB schema rows) req"
    by (simp add: AdminController_getAllFromDB_def)
  from u a t show ?thesis by blast
qed

theorem handlers_envelopes_witness:
  "userController_createAdmin sample_hash unique_emails \<lparr>users = [], admins = []\<rparr>
     \<lparr>body = JObj [(''admin'', JObj [(''email'', JStr ''a@x.com'')])], query = []\<rparr> =
     (\<lparr>users = [], admins = []\<rparr>,
      \<lparr>statusCode = 500,
       json = JObj [(''success'', JBool False), (''message'', JStr ''Error''),
                    (''error'', JStr ''data and salt arguments required'')]\<rparr>)
   \<and> failure_envelope (snd (userController_createAdmin sample_hash unique_emails
        \<lparr>users = [], admins = []\<rparr>
        \<lparr>body = JObj [(''admin'', JObj [(''email'', JStr ''a@x.com'')])], query = []\<rparr>))
   \<and> json (AdminController_getAllFromDB [''name''] [[(''name'', JStr ''A'')]]
        \<lparr>body = JUndefined, query = []\<rparr>) =
       JObj [(''status'', JNum 200), (''message'', JStr ''Admins Fetched Successfully!''),
             (''data'', JArr [JObj [(''name'', JStr ''A'')]])]
   \<and> failure_envelope (AdminController_getAllFromDB_over
        (\<lambda>p. Inl (ErrorInstance [] ''Connection lost'')) \<lparr>body = JUndefined, query = []\<rparr>)
   \<and> json (AdminController_getAllFromDB_over
        (\<lambda>p. Inl (ErrorInstance [] ''Connection lost'')) \<lparr>body = JUndefined, query = []\<rparr>) =
       JObj [(''success'', JBool False), (''message'', JStr ''Failed to fetch Admins''),
             (''error'', JStr ''Connection lost'')]
   \<and> json (AdminController_getAllFromDB_over
        (\<lambda>p. Inl (NonError (JNum 7))) \<lparr>body = JUndefined, query = []\<rparr>) =
       JObj [(''success'', JBool False), (''message'', JStr ''Failed to fetch Admins''),
             (''error'', JNum 7)]"
proof -
  let ?req = "\<lparr>body = JObj [(''admin'', JObj [(''email'', JStr ''a@x.com'')])], query = []\<rparr>"
  let ?get = "\<lparr>body = JUndefined, query = []\<rparr>"
  let ?db = "\<lparr>users = [], admins = []\<rparr>"
  let ?lost = "\<lambda>p :: params. (Inl (ErrorInstance [] ''Connection lost'') :: thrown + obj list)"
  let ?seven = "\<lambda>p :: params. (Inl (NonError (JNum 7)) :: thrown + obj list)"
  have s: "createAdmin sample_hash unique_emails ?db
             (JObj [(''admin'', JObj [(''email'', JStr ''a@x.com'')])]) =
             (?db, Inl (ErrorInstance ''Error'' ''data and salt arguments required''))"
    by (simp add: createAdmin_def get_def)
  have g: "getAllFromDB [''name''] [[(''name'', JStr ''A'')]]
             (PObject (pick (query ?get) safeKeys)) = Inr [[(''name'', JStr ''A'')]]"
    by (simp add: pick_def safeKeys_def whereConditions_def addCondition_def rest_of_def
          keys_def get_def findMany_def)
  note t1 = handlers_envelopes [of sample_hash unique_emails ?db ?req ?lost "[''name'']"
      "[[(''name'', JStr ''A'')]]"]
  note t2 = handlers_envelopes [of sample_hash unique_emails ?db ?get
      "getAllFromDB [''name''] [[(''name'', JStr ''A'')]]" "[''name'']"
      "[[(''name'', JStr ''A'')]]"]
  note t3 = handlers_envelopes [of sample_hash unique_emails ?db ?get ?lost "[''name'']"
      "[[(''name'', JStr ''A'')]]"]
  note t4 = handlers_envelopes [of sample_hash unique_emails ?db ?get ?seven "[''name'']"
      "[[(''name'', JStr ''A'')]]"]
  from t1 s have f: "failure_envelope (snd (userController_createAdmin sample_hash
      unique_emails ?db ?req))"
    by simp
  from t2 g have j: "json (AdminController_getAllFromDB [''name''] [[(''name'', JStr ''A'')]]
        ?get) =
       JObj [(''status'', JNum 200), (''message'', JStr ''Admins Fetched Successfully!''),
             (''data'', JArr [JObj [(''name'', JStr ''A'')]])]"
    by simp
  from t3 have l1: "failure_envelope (AdminController_getAllFromDB_over ?lost ?get)"
    by simp
  from t3 have l2: "json (AdminController_getAllFromDB_over ?lost ?get) =
       JObj [(''success'', JBool False), (''message'', JStr ''Failed to fetch Admins''),
             (''error'', JStr ''Connection lost'')]"
    by simp
  from t4 have l3: "json (AdminController_getAllFromDB_over ?seven ?get) =
       JObj [(''success'', JBool False), (''message'', JStr ''Failed to fetch Admins''),
             (''error'', JNum 7)]"
    by simp
  have e: "userController_createAdmin sample_hash unique_emails ?db ?req =
     (?db, \<lparr>statusCode = 500,
       json = JObj [(''success'', JBool False), (''message'', JStr ''Error''),
                    (''error'', JStr ''data and salt arguments required'')]\<rparr>)"
    by (simp add: userController_createAdmin_def s)
  from e f j l1 l2 l3 show ?thesis by blast
qed

lemma map_of_filter_keys:
  "P k \<Longrightarrow> map_of (filter (\<lambda>(k, v). P k) ob) k = map_of ob k"
  by (induction ob) auto

lemma pick_ignores_other_keys:
  "pick (filter (\<lambda>(k, v). k \<in> set ks) ob) ks = pick ob ks"
proof -
  have "map_of (filter (\<lambda>(k, v). k \<in> set ks) ob) k = map_of ob k" if "k \<in> set ks" for k
    using that by (rule map_of_filter_keys)
  then have "map (\<lambda>k. case map_of (filter (\<lambda>(k, v). k \<in> set ks) ob) k of
                         None \<Rightarrow> [] | Some v \<Rightarrow> [(k, v)]) ks =
             map (\<lambda>k. case map_of ob k of None \<Rightarrow> [] | Some v \<Rightarrow> [(k, v)]) ks"
    by simp
  then show ?thesis
    unfolding pick_def by (rule arg_cong)
qed

lemma pick_keeps_listed_key:
  "k \<in> set ks \<Longrightarrow> map_of ob k = Some v \<Longrightarrow> (k, v) \<in> set (pick ob ks)"
  by (auto simp: pick_def intro!: bexI [of _ k])

lemma unknown_rest_key_rejected:
  assumes "k \<in> set (keys (rest_of ps))" and "k \<notin> set schema"
  shows "\<exists>k'. k' \<notin> set schema \<and> getAllFromDB schema rows (PObject ps) = Inl (unknown_field k')"
proof -
  from assms have "\<not> set (fields_of (whereConditions ps)) \<subseteq> set schema"
    by (auto simp: fields_of_whereConditions)
  then show ?thesis
    using findMany_unknown [of "whereConditions ps" schema rows] by auto
qed

text \<open>
  C6, as the code has it. A key that reaches the service and is not a field of the schema
  makes the call fail with the unknown-field error of the data-access client, and the
  handler reports a failure of a whitelisted key (\<open>name\<close>, \<open>email\<close>, \<open>contactNumber\<close>) that
  the schema lacks in the 500 envelope. The handler passes on only the whitelisted keys:
  a query answers as the same query without its other keys does.
\<close>

theorem unknown_field_handling:
  "(k \<in> set (keys (rest_of ps)) \<and> k \<notin> set schema \<longrightarrow>
      (\<exists>k'. k' \<notin> set schema \<and> getAllFromDB schema rows (PObject ps) = Inl (unknown_field k')))
   \<and> AdminController_getAllFromDB schema rows req =
       AdminController_getAllFromDB schema rows
         (req\<lparr>query := filter (\<lambda>(k, v). k \<in> set safeKeys) (query req)\<rparr>)
   \<and> (k \<in> {''name'', ''email'', ''contactNumber''} \<and> map_of (query req) k \<noteq> None
        \<and> k \<notin> set schema \<longrightarrow>
        failure_envelope (AdminController_getAllFromDB schema rows req))"
proof -
  have a: "k \<in> set (keys (rest_of ps)) \<and> k \<notin> set schema \<longrightarrow>
      (\<exists>k'. k' \<notin> set schema \<and> getAllFromDB schema rows (PObject ps) = Inl (unknown_field k'))"
    using unknown_rest_key_rejected by blast
  have b: "AdminController_getAllFromDB schema rows req =
       AdminController_getAllFromDB schema rows
         (req\<lparr>query := filter (\<lambda>(k, v). k \<in> set safeKeys) (query req)\<rparr>)"
    by (simp add: AdminController_getAllFromDB_def AdminController_getAllFromDB_over_def
          pick_ignores_other_keys)
  have c: "k \<in> {''name'', ''email'', ''contactNumber''} \<and> map_of (query req) k \<noteq> None
        \<and> k \<notin> set schema \<longrightarrow>
        failure_envelope (AdminController_getAllFromDB schema rows req)"
  proof
    assume h: "k \<in> {''name'', ''email'', ''contactNumber''} \<and> map_of (query req) k \<noteq> None
        \<and> k \<notin> set schema"
    then obtain v where v: "map_of (query req) k = Some v"
      by auto
    from h have "k \<in> set safeKeys" and ns: "k \<noteq> ''searchTerm''"
      by (auto simp: safeKeys_def)
    with v have "(k, v) \<in> set (pick (query req) safeKeys)"
      by (simp add: pick_keeps_listed_key)
    with ns have "k \<in> set (keys (rest_of (pick (query req) safeKeys)))"
      by (force simp: keys_def rest_of_def)
    with h obtain k' where
      "getAllFromDB schema rows (PObject (pick (query req) safeKeys)) = Inl (unknown_field k')"
      using unknown_rest_key_rejected by blast
    then show "failure_envelope (AdminController_getAllFromDB schema rows req)"
      by (simp add: AdminController_failure failure_body_envelope)
  qed
  from a b c show ?thesis by blast
qed

theorem unknown_field_handling_witness:
  "''age'' \<in> set (keys (rest_of [(''age'', JStr ''30'')])) \<and> ''age'' \<notin> set [''name'', ''email'']
   \<and> (\<exists>k'. k' \<notin> set [''name'', ''email'']
         \<and> getAllFromDB [''name'', ''email''] [[(''name'', JStr ''A'')]]
             (PObject [(''age'', JStr ''30'')]) = Inl (unknown_field k'))
   \<and> ''contactNumber'' \<in> {''name'', ''email'', ''contactNumber''}
   \<and> map_of (query \<lparr>body = JUndefined, query = [(''contactNumber'', JStr ''1'')]\<rparr>)
        ''contactNumber'' \<noteq> None
   \<and> failure_envelope (AdminController_getAllFromDB [''name'', ''email'']
        [[(''name'', JStr ''A'')]]
        \<lparr>body = JUndefined, query = [(''contactNumber'', JStr ''1'')]\<rparr>)"
proof -
  have h1: "''age'' \<in> set (keys (rest_of [(''age'', JStr ''30'')]))"
    by (simp add: keys_def rest_of_def)
  have h2: "''age'' \<notin> set [''name'', ''email'']"
    by simp
  have h3: "''contactNumber'' \<in> {''name'', ''email'', ''contactNumber''}"
    by simp
  have h4: "map_of (query \<lparr>body = JUndefined, query = [(''contactNumber'', JStr ''1'')]\<rparr>)
        ''contactNumber'' \<noteq> None"
    by simp
  have h5: "''contactNumber'' \<notin> set [''name'', ''email'']"
    by simp
  from unknown_field_handling [of "''age''" "[(''age'', JStr ''30'')]" "[''name'', ''email'']"
      "[[(''name'', JStr ''A'')]]"] h1 h2
  have a: "\<exists>k'. k' \<notin> set [''name'', ''email'']
         \<and> getAllFromDB [''name'', ''email''] [[(''name'', JStr ''A'')]]
             (PObject [(''age'', JStr ''30'')]) = Inl (unknown_field k')"
    by blast
  from unknown_field_handling [of "''contactNumber''" "[]" "[''name'', ''email'']"
      "[[(''name'', JStr ''A'')]]"
      "\<lparr>body = JUndefined, query = [(''contactNumber'', JStr ''1'')]\<rparr>"] h3 h4 h5
  have b: "failure_envelope (AdminController_getAllFromDB [''name'', ''email'']
        [[(''name'', JStr ''A'')]]
        \<lparr>body = JUndefined, query = [(''contactNumber'', JStr ''1'')]\<rparr>)"
    by blast
  from h1 h2 h3 h4 a b show ?thesis by blast
qed

text \<open>
  C6, as the spec states it, fails: a request whose query names \<open>age\<close>, which is no field
  of the schema, is answered with status 200 and every stored row.
\<close>

theorem unknown_query_key_dropped:
  "AdminController_getAllFromDB [''name'', ''email'', ''contactNumber'']
     [[(''name'', JStr ''A'')], [(''name'', JStr ''B'')]]
     \<lparr>body = JUndefined, query = [(''age'', JStr ''30'')]\<rparr> =
   \<lparr>statusCode = 200,
    json = JObj [(''status'', JNum 200), (''message'', JStr ''Admins Fetched Successfully!''),
                 (''data'', JArr [JObj [(''name'', JStr ''A'')], JObj [(''name'', JStr ''B'')]])]\<rparr>"
  by (simp add: AdminController_getAllFromDB_def AdminController_getAllFromDB_over_def
        pick_def safeKeys_def whereConditions_def
        addCondition_def rest_of_def keys_def get_def findMany_def)

end
